theory Spec2Isabelle
  imports Main "HOL-Library.Word" "HOL-Library.Sublist"
begin

section \<open>Backend connections of the proxy (pkg/proxy/backend.go)\<close>

text \<open>
  Pointers of the Go program are addresses (natural numbers) into explicit stores, one
  store per object type. A pointer that may be nil is an \<open>option\<close>. Go's \<open>int\<close>
  values are modelled as \<open>int\<close>: the counters \<open>refcnt\<close> and \<open>retry.fails\<close> move by one
  per call, so the end of their 64-bit range is out of reach, and \<open>dbnum\<close>, \<open>database\<close>
  and \<open>parallel\<close> are only compared and used as lengths. The \<open>uint\<close> seed of
  \<open>BackendConn\<close> is an arbitrary argument and is a 64-bit word that wraps.
\<close>

type_synonym ref = nat

subsection \<open>RESP frames, errors and requests\<close>

text \<open>
  Modelled from the spec: the frame type \<open>redis.Resp\<close> is declared outside this file.
  A frame has a type (simple string, error, integer, bulk string or array), a value (a
  byte sequence) and, for an array, its elements.
\<close>

datatype RespType = TypeString | TypeError | TypeInt | TypeBulkBytes | TypeArray

datatype Resp = MkResp (Type: RespType) (Value: string) (Array: "Resp list")

definition NewBulkBytes :: "string \<Rightarrow> Resp" where
  "NewBulkBytes b = MkResp TypeBulkBytes b []"

definition IsError :: "Resp \<Rightarrow> bool" where
  "IsError r = (Type r = TypeError)"

definition IsString :: "Resp \<Rightarrow> bool" where
  "IsString r = (Type r = TypeString)"

text \<open>
  The errors of the file: its two variables, \<open>ErrRespIsRequired\<close> (declared
  elsewhere in the package), the three \<open>fmt.Errorf\<close> shapes, and an error returned by
  the network layer.
\<close>

datatype error =
    ErrBackendConnReset
  | ErrRequestIsBroken
  | ErrRespIsRequired
  | BackendConnFailure error
  | ErrorResp string
  | ErrorRespType RespType
  | IOError string

text \<open>What stops a call instead of letting it return.\<close>

datatype fault =
    SendOnClosedChannel
  | IndexOutOfRange
  | MakeLenOutOfRange
  | LogPanic string
  | Blocked

text \<open>
  Modelled from the spec: \<open>Request\<close> is declared outside this file. It carries the
  command \<open>Multi\<close>, the output slots \<open>Resp\<close> and \<open>Err\<close>, an optional \<open>Group\<close> and
  \<open>Batch\<close>, and the predicates \<open>IsReadOnly()\<close> and \<open>IsBroken()\<close>, here two fields.
\<close>

record Request =
  Multi :: "Resp list"
  Resp :: "Resp option"
  Err :: "error option"
  Group :: "ref option"
  Batch :: "ref option"
  ReadOnly :: bool
  Broken :: bool

definition empty_Request :: Request where
  "empty_Request = \<lparr>Multi = [], Resp = None, Err = None, Group = None, Batch = None,
     ReadOnly = False, Broken = False\<rparr>"

subsection \<open>The objects of the file\<close>

text \<open>
  Modelled from the spec: \<open>Config\<close> is declared outside this file. Of its knobs, only
  the password and the pipeline depth decide a branch here; buffer sizes, timeouts and the
  keep-alive period go to the network layer, whose answers are arguments of the model.
\<close>

record Config =
  ProductAuth :: string
  BackendMaxPipeline :: int

text \<open>
  Modelled from the spec: the delay generator (\<open>Delay\<close>, \<open>DelayExp2\<close>, its \<open>After\<close> and
  \<open>Reset\<close>) is declared outside this file. The spec describes it as an exponential
  backoff generator, doubling from 50ms to 5000ms, reset on successful connect. Values
  are in milliseconds.
\<close>

record DelayExp2 =
  delay_Min :: int
  delay_Max :: int
  delay_Value :: int

definition NextValue :: "DelayExp2 \<Rightarrow> DelayExp2" where
  "NextValue d =
     d\<lparr>delay_Value := max (delay_Min d) (min (delay_Max d) (delay_Value d * 2))\<rparr>"

definition Reset :: "DelayExp2 \<Rightarrow> DelayExp2" where
  "Reset d = d\<lparr>delay_Value := 0\<rparr>"

definition stateConnected :: int where "stateConnected = 1"
definition stateDataStale :: int where "stateDataStale = 2"

record BackendConn =
  addr :: string
  dbnum :: int
  input :: "ref list"
  input_closed :: bool
  fails :: int
  delay :: DelayExp2
  state :: int
  closed :: bool
  config :: Config

record sharedBackendConn =
  saddr :: string
  owner :: ref
  conns :: "ref list list"
  single :: "ref option"
  refcnt :: int

record sharedBackendConnPool =
  parallel :: int
  database :: int
  pool :: "string \<rightharpoonup> ref"

text \<open>
  The stores. \<open>goroutines\<close> lists the connections whose supervisor (\<open>go bc.run()\<close>)
  has been started, in start order; \<open>wgroups\<close> holds the counter of every Group and
  Batch object.
\<close>

record World =
  requests :: "ref \<Rightarrow> Request"
  req_next :: ref
  wgroups :: "ref \<Rightarrow> int"
  bconns :: "ref \<Rightarrow> BackendConn"
  bc_next :: ref
  goroutines :: "ref list"
  shareds :: "ref \<Rightarrow> sharedBackendConn"
  sh_next :: ref
  pools :: "ref \<Rightarrow> sharedBackendConnPool"
  pool_next :: ref

subsection \<open>BackendConn: construction, Close, IsConnected\<close>

definition NewBackendConn :: "string \<Rightarrow> int \<Rightarrow> Config \<Rightarrow> World \<Rightarrow> ref \<times> World" where
  "NewBackendConn a db cfg w =
     (let bc = \<lparr>addr = a, dbnum = db, input = [], input_closed = False, fails = 0,
                 delay = \<lparr>delay_Min = 50, delay_Max = 5000, delay_Value = 0\<rparr>,
                 state = 0, closed = False, config = cfg\<rparr>;
          p = bc_next w
      in (p, w\<lparr>bconns := (bconns w)(p := bc), bc_next := Suc p,
               goroutines := goroutines w @ [p]\<rparr>))"

definition close_bc :: "BackendConn \<Rightarrow> BackendConn" where
  "close_bc bc = bc\<lparr>input_closed := True, closed := True\<rparr>"

definition Close :: "ref \<Rightarrow> World \<Rightarrow> World" where
  "Close p w = w\<lparr>bconns := (bconns w)(p := close_bc (bconns w p))\<rparr>"

definition Addr :: "ref \<Rightarrow> World \<Rightarrow> string" where
  "Addr p w = addr (bconns w p)"

definition IsConnected :: "ref \<Rightarrow> World \<Rightarrow> bool" where
  "IsConnected p w = (state (bconns w p) = stateConnected)"

subsection \<open>sharedBackendConn: selection\<close>

text \<open>
  The loop of \<open>BackendConn\<close>: one iteration per element of \<open>conns\<close>, the index advanced
  in \<open>uint\<close> arithmetic before each read.
\<close>

fun scan :: "ref list \<Rightarrow> nat \<Rightarrow> 64 word \<Rightarrow> World \<Rightarrow> ref option" where
  "scan cs 0 i w = None"
| "scan cs (Suc n) i w =
     (let i' = (i + 1) mod (word_of_nat (length cs))
      in if IsConnected (cs ! unat i') w then Some (cs ! unat i')
         else scan cs n i' w)"

definition BackendConn :: "ref option \<Rightarrow> int \<Rightarrow> 64 word \<Rightarrow> bool \<Rightarrow> World \<Rightarrow> fault + ref option" where
  "BackendConn sp db seed must w =
     (case sp of None \<Rightarrow> Inr None
      | Some s \<Rightarrow>
         (case single (shareds w s) of
            Some bc \<Rightarrow> Inr (if must \<or> IsConnected bc w then Some bc else None)
          | None \<Rightarrow>
             if db < 0 \<or> int (length (conns (shareds w s))) \<le> db then Inl IndexOutOfRange
             else let cs = conns (shareds w s) ! nat db in
               (case scan cs (length cs) seed w of
                  Some bc \<Rightarrow> Inr (Some bc)
                | None \<Rightarrow>
                   if \<not> must then Inr None
                   else if cs = [] then Inl IndexOutOfRange
                   else Inr (Some (cs ! 0)))))"

subsection \<open>sharedBackendConn: construction, Retain, Release\<close>

text \<open>
  The two nested loops of \<open>newSharedBackendConn\<close>: row \<open>dbnum\<close> is filled slot by slot
  with connections created for database \<open>dbnum\<close>. The fields \<open>host\<close> and \<open>port\<close>
  (the result of \<open>net.SplitHostPort\<close>, never read in this file) are left out.
\<close>

fun new_row :: "string \<Rightarrow> int \<Rightarrow> Config \<Rightarrow> nat \<Rightarrow> World \<Rightarrow> ref list \<times> World" where
  "new_row a db cfg 0 w = ([], w)"
| "new_row a db cfg (Suc n) w =
     (let (bc, w1) = NewBackendConn a db cfg w;
          (row, w2) = new_row a db cfg n w1
      in (bc # row, w2))"

fun new_grid :: "string \<Rightarrow> Config \<Rightarrow> nat \<Rightarrow> int \<Rightarrow> nat \<Rightarrow> World \<Rightarrow> ref list list \<times> World" where
  "new_grid a cfg par db 0 w = ([], w)"
| "new_grid a cfg par db (Suc n) w =
     (let (row, w1) = new_row a db cfg par w;
          (rows, w2) = new_grid a cfg par (db + 1) n w1
      in (row # rows, w2))"

definition newSharedBackendConn :: "string \<Rightarrow> Config \<Rightarrow> ref \<Rightarrow> World \<Rightarrow> fault + ref \<times> World" where
  "newSharedBackendConn a cfg p w =
     (let po = pools w p in
      if database po < 0 \<or> (0 < database po \<and> parallel po < 0) then Inl MakeLenOutOfRange
      else
        let (grid, w1) = new_grid a cfg (nat (parallel po)) 0 (nat (database po)) w;
            s = \<lparr>saddr = a, owner = p, conns = grid,
                 single = (if length grid = 1 \<and> length (grid ! 0) = 1
                           then Some (grid ! 0 ! 0) else None),
                 refcnt = 1\<rparr>;
            sp = sh_next w1
        in Inr (sp, w1\<lparr>shareds := (shareds w1)(sp := s), sh_next := Suc sp\<rparr>))"

definition shared_Addr :: "ref option \<Rightarrow> World \<Rightarrow> string" where
  "shared_Addr sp w = (case sp of None \<Rightarrow> [] | Some s \<Rightarrow> saddr (shareds w s))"

definition close_all :: "ref list list \<Rightarrow> World \<Rightarrow> World" where
  "close_all grid w = fold (\<lambda>row. fold Close row) grid w"

text \<open>
  Modelled from the spec: \<open>log.Panicf\<close> is declared outside this file; the spec calls
  it a fatal error, so the call does not return.
\<close>

definition Release :: "ref option \<Rightarrow> World \<Rightarrow> fault + World" where
  "Release sp w =
     (case sp of None \<Rightarrow> Inr w
      | Some s \<Rightarrow>
         let sh = shareds w s in
         if refcnt sh \<le> 0
         then Inl (LogPanic ''shared backend conn has been closed, close too many times'')
         else
           let sh' = sh\<lparr>refcnt := refcnt sh - 1\<rparr>;
               w1 = w\<lparr>shareds := (shareds w)(s := sh')\<rparr>
           in if refcnt sh' \<noteq> 0 then Inr w1
              else
                let w2 = close_all (conns sh') w1;
                    po = pools w2 (owner sh')
                in Inr (w2\<lparr>pools := (pools w2)
                          (owner sh' := po\<lparr>pool := (pool po)(saddr sh' := None)\<rparr>)\<rparr>))"

definition Retain :: "ref option \<Rightarrow> World \<Rightarrow> fault + ref option \<times> World" where
  "Retain sp w =
     (case sp of None \<Rightarrow> Inr (None, w)
      | Some s \<Rightarrow>
         let sh = shareds w s in
         if refcnt sh \<le> 0 then Inl (LogPanic ''shared backend conn has been closed'')
         else Inr (Some s, w\<lparr>shareds := (shareds w)(s := sh\<lparr>refcnt := refcnt sh + 1\<rparr>)\<rparr>))"

text \<open>\<open>n\<close> calls of \<open>Retain\<close>, and \<open>n\<close> calls of \<open>Release\<close>, on the same entry.\<close>

fun Retain_times :: "nat \<Rightarrow> ref \<Rightarrow> World \<Rightarrow> fault + World" where
  "Retain_times 0 s w = Inr w"
| "Retain_times (Suc n) s w =
     (case Retain (Some s) w of Inl f \<Rightarrow> Inl f | Inr (_, w1) \<Rightarrow> Retain_times n s w1)"

fun Release_times :: "nat \<Rightarrow> ref \<Rightarrow> World \<Rightarrow> fault + World" where
  "Release_times 0 s w = Inr w"
| "Release_times (Suc n) s w =
     (case Release (Some s) w of Inl f \<Rightarrow> Inl f | Inr w1 \<Rightarrow> Release_times n s w1)"

subsection \<open>sharedBackendConnPool\<close>

definition newSharedBackendConnPool :: "int \<Rightarrow> int \<Rightarrow> World \<Rightarrow> ref \<times> World" where
  "newSharedBackendConnPool par db w =
     (let p = pool_next w
      in (p, w\<lparr>pools := (pools w)
                 (p := \<lparr>parallel = max 1 par, database = max 1 db, pool = Map.empty\<rparr>),
               pool_next := Suc p\<rparr>))"

definition pool_Get :: "ref \<Rightarrow> string \<Rightarrow> World \<Rightarrow> ref option" where
  "pool_Get p a w = pool (pools w p) a"

definition pool_Retain :: "ref \<Rightarrow> string \<Rightarrow> Config \<Rightarrow> World \<Rightarrow> fault + ref option \<times> World" where
  "pool_Retain p a cfg w =
     (case pool (pools w p) a of
        Some bc \<Rightarrow> Retain (Some bc) w
      | None \<Rightarrow>
         (case newSharedBackendConn a cfg p w of
            Inl f \<Rightarrow> Inl f
          | Inr (bc, w1) \<Rightarrow>
             Inr (Some bc, w1\<lparr>pools := (pools w1)
                    (p := (pools w1 p)\<lparr>pool := (pool (pools w1 p))(a \<mapsto> bc)\<rparr>)\<rparr>)))"

subsection \<open>BackendConn: PushBack, KeepAlive, setResponse\<close>

text \<open>
  Modelled from the spec: \<open>Group\<close> and \<open>Batch\<close> are declared outside this file; the
  spec gives them increment and decrement-to-zero semantics, so each is a counter.
\<close>

definition wg_Add :: "ref \<Rightarrow> int \<Rightarrow> World \<Rightarrow> World" where
  "wg_Add g n w = w\<lparr>wgroups := (wgroups w)(g := wgroups w g + n)\<rparr>"

definition wg_Done :: "ref \<Rightarrow> World \<Rightarrow> World" where
  "wg_Done g w = wg_Add g (- 1) w"

text \<open>
  The send \<open>bc.input <- r\<close> on the channel of capacity 1024: it panics on a closed
  channel, and does not return while the channel is full.
\<close>

definition PushBack :: "ref \<Rightarrow> ref \<Rightarrow> World \<Rightarrow> fault + World" where
  "PushBack bc r w =
     (let w1 = (case Batch (requests w r) of None \<Rightarrow> w | Some b \<Rightarrow> wg_Add b 1 w);
          c = bconns w1 bc
      in if input_closed c then Inl SendOnClosedChannel
         else if 1024 \<le> length (input c) then Inl Blocked
         else Inr (w1\<lparr>bconns := (bconns w1)(bc := c\<lparr>input := input c @ [r]\<rparr>)\<rparr>))"

definition CompareAndSwap :: "ref \<Rightarrow> int \<Rightarrow> int \<Rightarrow> World \<Rightarrow> World" where
  "CompareAndSwap bc old new w =
     (if state (bconns w bc) = old
      then w\<lparr>bconns := (bconns w)(bc := (bconns w bc)\<lparr>state := new\<rparr>)\<rparr> else w)"

definition KeepAlive :: "ref \<Rightarrow> World \<Rightarrow> fault + bool \<times> World" where
  "KeepAlive bc w =
     (let w1 = CompareAndSwap bc stateDataStale stateConnected w
      in if length (input (bconns w1 bc)) \<noteq> 0 then Inr (False, w1)
         else
           let m = req_next w1;
               w2 = w1\<lparr>requests := (requests w1)
                          (m := empty_Request\<lparr>Multi := [NewBulkBytes ''PING'']\<rparr>),
                       req_next := Suc m\<rparr>
           in (case PushBack bc m w2 of Inl f \<Rightarrow> Inl f | Inr w3 \<Rightarrow> Inr (True, w3)))"

definition setResponse :: "ref \<Rightarrow> Resp option \<Rightarrow> error option \<Rightarrow> World \<Rightarrow> World" where
  "setResponse r resp err w =
     (let rq = requests w r;
          w1 = w\<lparr>requests := (requests w)(r := rq\<lparr>Resp := resp, Err := err\<rparr>)\<rparr>;
          w2 = (case Group rq of None \<Rightarrow> w1 | Some g \<Rightarrow> wg_Done g w1)
      in (case Batch rq of None \<Rightarrow> w2 | Some b \<Rightarrow> wg_Done b w2))"

subsection \<open>The handshake of a session\<close>

text \<open>
  What the network answers is an argument: the result of the dial, of each encode, and
  of each decode (a frame or nil, and an error or nil).
\<close>

type_synonym decoded = "Resp option \<times> error option"

record SessionIO =
  dial :: "error option"
  auth_encode :: "error option"
  auth_reply :: decoded
  select_encode :: "error option"
  select_reply :: decoded

definition verifyAuth :: "error option \<Rightarrow> decoded \<Rightarrow> string \<Rightarrow> error option" where
  "verifyAuth enc dec auth =
     (if auth = [] then None
      else case enc of Some e \<Rightarrow> Some e
        | None \<Rightarrow>
           (case dec of
              (_, Some e) \<Rightarrow> Some e
            | (None, None) \<Rightarrow> Some ErrRespIsRequired
            | (Some resp, None) \<Rightarrow>
               if IsError resp then Some (ErrorResp (Value resp))
               else if IsString resp then None
               else Some (ErrorRespType (Type resp))))"

definition selectDB :: "error option \<Rightarrow> decoded \<Rightarrow> int \<Rightarrow> error option" where
  "selectDB enc dec db =
     (if db = 0 then None
      else case enc of Some e \<Rightarrow> Some e
        | None \<Rightarrow>
           (case dec of
              (_, Some e) \<Rightarrow> Some e
            | (None, None) \<Rightarrow> Some ErrRespIsRequired
            | (Some resp, None) \<Rightarrow>
               if IsError resp then Some (ErrorResp (Value resp))
               else if IsString resp then None
               else Some (ErrorRespType (Type resp))))"

text \<open>
  \<open>newBackendReader\<close> returns the error of the handshake, or nil after it has made the
  in-flight channel \<open>tasks\<close> (a panic when the configured capacity is negative) and
  started the reader on it.
\<close>

definition newBackendReader :: "SessionIO \<Rightarrow> BackendConn \<Rightarrow> Config \<Rightarrow> fault + error option" where
  "newBackendReader io c cfg =
     (case dial io of Some e \<Rightarrow> Inr (Some e)
      | None \<Rightarrow>
         (case verifyAuth (auth_encode io) (auth_reply io) (ProductAuth cfg) of
            Some e \<Rightarrow> Inr (Some e)
          | None \<Rightarrow>
             (case selectDB (select_encode io) (select_reply io) (dbnum c) of
                Some e \<Rightarrow> Inr (Some e)
              | None \<Rightarrow>
                 if BackendMaxPipeline cfg < 0 then Inl MakeLenOutOfRange else Inr None)))"

subsection \<open>The reader\<close>

definition errMasterDown :: string where
  "errMasterDown = ''MASTERDOWN''"

text \<open>
  \<open>loopReader\<close> runs over the requests that arrive on \<open>tasks\<close> until the channel is
  closed, each paired with what \<open>Decode\<close> returns when its turn comes. The deferred
  function completes what is left of \<open>tasks\<close> after a decode error.
\<close>

fun loopReader :: "ref \<Rightarrow> (ref \<times> decoded) list \<Rightarrow> World \<Rightarrow> error option \<times> World" where
  "loopReader bc [] w = (None, w)"
| "loopReader bc ((r, resp, err) # tasks) w =
     (case err of
        Some e \<Rightarrow>
          (Some (BackendConnFailure e),
           fold (\<lambda>(r', _). setResponse r' None (Some ErrBackendConnReset)) tasks
             (setResponse r None (Some (BackendConnFailure e)) w))
      | None \<Rightarrow>
          let w1 = (case resp of
                      None \<Rightarrow> w
                    | Some rp \<Rightarrow>
                       if IsError rp \<and> prefix errMasterDown (Value rp)
                       then CompareAndSwap bc stateConnected stateDataStale w else w)
          in loopReader bc tasks (setResponse r resp None w1))"

subsection \<open>The supervisor: run, loopWriter, delayBeforeRetry\<close>

text \<open>
  The supervisor is one goroutine; what the other goroutines do to the connection while
  it runs is given by a script. \<open>Act\<close> is a call by another goroutine: \<open>Push r\<close> is
  \<open>PushBack(r)\<close>, \<open>CloseConn\<close> is \<open>Close()\<close>. A function whose script ends while it
  is still waiting is \<open>Running\<close>; otherwise it has \<open>Returned\<close>.
\<close>

datatype env = Push ref | CloseConn

datatype 'a progress = Returned 'a | Running

definition env_step :: "ref \<Rightarrow> env \<Rightarrow> World \<Rightarrow> fault + World" where
  "env_step bc a w = (case a of Push r \<Rightarrow> PushBack bc r w | CloseConn \<Rightarrow> Inr (Close bc w))"

fun env_steps :: "ref \<Rightarrow> env list \<Rightarrow> World \<Rightarrow> fault + World" where
  "env_steps bc [] w = Inr w"
| "env_steps bc (a # as) w =
     (case env_step bc a w of Inl f \<Rightarrow> Inl f | Inr w1 \<Rightarrow> env_steps bc as w1)"

definition set_input :: "ref \<Rightarrow> ref list \<Rightarrow> World \<Rightarrow> World" where
  "set_input bc q w = w\<lparr>bconns := (bconns w)(bc := (bconns w bc)\<lparr>input := q\<rparr>)\<rparr>"

definition set_state :: "ref \<Rightarrow> int \<Rightarrow> World \<Rightarrow> World" where
  "set_state bc v w = w\<lparr>bconns := (bconns w)(bc := (bconns w bc)\<lparr>state := v\<rparr>)\<rparr>"

text \<open>
  The deferred drain of \<open>loopWriter\<close>: the \<open>len(bc.input)\<close> requests buffered at that
  moment are received and completed with \<open>ErrBackendConnReset\<close>.
\<close>

definition drain_input :: "ref \<Rightarrow> World \<Rightarrow> World" where
  "drain_input bc w =
     fold (\<lambda>r. setResponse r None (Some ErrBackendConnReset)) (input (bconns w bc))
       (set_input bc [] w)"

text \<open>
  One \<open>WIter\<close> is one turn of \<open>for r := range bc.input\<close>, with the results of the
  encode and of the flush; with nothing buffered, the turn ends the loop when the channel
  is closed and waits otherwise. The third component of the result is the sequence of
  requests handed to the reader over \<open>tasks\<close>.
\<close>

datatype wstep = WAct env | WIter "error option" "error option"

fun writer_loop ::
  "ref \<Rightarrow> wstep list \<Rightarrow> ref list \<Rightarrow> World \<Rightarrow> fault + error option progress \<times> ref list \<times> World"
where
  "writer_loop bc [] tasks w = Inr (Running, tasks, w)"
| "writer_loop bc (WAct a # s) tasks w =
     (case env_step bc a w of Inl f \<Rightarrow> Inl f | Inr w1 \<Rightarrow> writer_loop bc s tasks w1)"
| "writer_loop bc (WIter enc fl # s) tasks w =
     (case input (bconns w bc) of
        [] \<Rightarrow> if input_closed (bconns w bc) then Inr (Returned None, tasks, w)
              else writer_loop bc s tasks w
      | r # q \<Rightarrow>
          let w1 = set_input bc q w in
          if ReadOnly (requests w1 r) \<and> Broken (requests w1 r)
          then writer_loop bc s tasks (setResponse r None (Some ErrRequestIsBroken) w1)
          else (case enc of
                  Some e \<Rightarrow>
                    Inr (Returned (Some (BackendConnFailure e)), tasks,
                         setResponse r None (Some (BackendConnFailure e)) w1)
                | None \<Rightarrow>
                   (case fl of
                      Some e \<Rightarrow>
                        Inr (Returned (Some (BackendConnFailure e)), tasks,
                             setResponse r None (Some (BackendConnFailure e)) w1)
                    | None \<Rightarrow> writer_loop bc s (tasks @ [r]) w1)))"

definition session_start :: "ref \<Rightarrow> World \<Rightarrow> World" where
  "session_start bc w =
     w\<lparr>bconns := (bconns w)
         (bc := (bconns w bc)\<lparr>state := stateConnected, fails := 0,
                               delay := Reset (delay (bconns w bc))\<rparr>)\<rparr>"

text \<open>
  The deferred calls run last to first: \<open>bc.state.Set(0)\<close>, \<open>close(tasks)\<close>, then
  the drain.
\<close>

definition loopWriter ::
  "ref \<Rightarrow> SessionIO \<Rightarrow> wstep list \<Rightarrow> World \<Rightarrow> fault + error option progress \<times> ref list \<times> World"
where
  "loopWriter bc io s w =
     (case newBackendReader io (bconns w bc) (config (bconns w bc)) of
        Inl f \<Rightarrow> Inl f
      | Inr (Some e) \<Rightarrow> Inr (Returned (Some e), [], drain_input bc w)
      | Inr None \<Rightarrow>
         (case writer_loop bc s [] (session_start bc w) of
            Inl f \<Rightarrow> Inl f
          | Inr (Running, tasks, w1) \<Rightarrow> Inr (Running, tasks, w1)
          | Inr (Returned err, tasks, w1) \<Rightarrow>
              Inr (Returned err, tasks, drain_input bc (set_state bc 0 w1))))"

text \<open>
  Modelled from the spec: \<open>After\<close> of the delay generator, declared outside this file,
  moves the generator to its next interval and arms a timer for it.
\<close>

definition After :: "DelayExp2 \<Rightarrow> int \<times> DelayExp2" where
  "After d = (delay_Value (NextValue d), NextValue d)"

text \<open>
  The part of \<open>delayBeforeRetry\<close> before its loop: the interval of the timer it arms,
  or nothing when it returns at once.
\<close>

definition retry_step :: "BackendConn \<Rightarrow> int option \<times> BackendConn" where
  "retry_step c =
     (let c1 = c\<lparr>fails := fails c + 1\<rparr>
      in if fails c1 \<le> 10 then (None, c1)
         else let (t, d) = After (delay c1) in (Some t, c1\<lparr>delay := d\<rparr>))"

text \<open>
  The loop of \<open>delayBeforeRetry\<close>. \<open>Timer\<close> and \<open>Input\<close> are one turn each, naming the
  case of the \<open>select\<close> that is taken; a turn starts with the test of \<open>closed\<close>, and
  so does the end of the script. A \<open>Timer\<close> turn returns whatever the test says.
\<close>

datatype wake = Act env | Timer | Input

fun delay_wait :: "ref \<Rightarrow> wake list \<Rightarrow> World \<Rightarrow> fault + unit progress \<times> World" where
  "delay_wait bc [] w = Inr (if closed (bconns w bc) then Returned () else Running, w)"
| "delay_wait bc (Act a # s) w =
     (case env_step bc a w of Inl f \<Rightarrow> Inl f | Inr w1 \<Rightarrow> delay_wait bc s w1)"
| "delay_wait bc (Timer # s) w = Inr (Returned (), w)"
| "delay_wait bc (Input # s) w =
     (if closed (bconns w bc) then Inr (Returned (), w)
      else case input (bconns w bc) of
        [] \<Rightarrow> if input_closed (bconns w bc) then Inr (Returned (), w)
              else delay_wait bc s w
      | r # q \<Rightarrow>
          delay_wait bc s (setResponse r None (Some ErrBackendConnReset) (set_input bc q w)))"

definition delayBeforeRetry ::
  "ref \<Rightarrow> wake list \<Rightarrow> World \<Rightarrow> fault + unit progress \<times> int option \<times> World"
where
  "delayBeforeRetry bc s w =
     (let (t, c) = retry_step (bconns w bc);
          w1 = w\<lparr>bconns := (bconns w)(bc := c)\<rparr>
      in case t of
           None \<Rightarrow> Inr (Returned (), None, w1)
         | Some ms \<Rightarrow>
            (case delay_wait bc s w1 of
               Inl f \<Rightarrow> Inl f
             | Inr (pr, w2) \<Rightarrow> Inr (pr, Some ms, w2)))"

text \<open>
  One round of \<open>run\<close>: what other goroutines do before the test of \<open>closed\<close>, then the
  session and, after a failed session, the wait. The second component of the result
  lists, for each call of \<open>delayBeforeRetry\<close> in order, the interval of the timer it
  armed (nothing when it returned at once).
\<close>

record round =
  before :: "env list"
  session_io :: SessionIO
  writer :: "wstep list"
  waits :: "wake list"

fun run :: "ref \<Rightarrow> round list \<Rightarrow> World \<Rightarrow> fault + unit progress \<times> int option list \<times> World" where
  "run bc [] w = Inr (if closed (bconns w bc) then Returned () else Running, [], w)"
| "run bc (rd # rds) w =
     (case env_steps bc (before rd) w of
        Inl f \<Rightarrow> Inl f
      | Inr w0 \<Rightarrow>
         if closed (bconns w0 bc) then Inr (Returned (), [], w0)
         else (case loopWriter bc (session_io rd) (writer rd) w0 of
                 Inl f \<Rightarrow> Inl f
               | Inr (Running, _, w1) \<Rightarrow> Inr (Running, [], w1)
               | Inr (Returned None, _, w1) \<Rightarrow> run bc rds w1
               | Inr (Returned (Some e), _, w1) \<Rightarrow>
                  (case delayBeforeRetry bc (waits rd) w1 of
                     Inl f \<Rightarrow> Inl f
                   | Inr (Running, t, w2) \<Rightarrow> Inr (Running, [t], w2)
                   | Inr (Returned _, t, w2) \<Rightarrow>
                      (case run bc rds w2 of
                         Inl f \<Rightarrow> Inl f
                       | Inr (pr, ts, w3) \<Rightarrow> Inr (pr, t # ts, w3)))))"

text \<open>A world with nothing allocated.\<close>

definition World0 :: World where
  "World0 =
     \<lparr>requests = (\<lambda>_. empty_Request), req_next = 0, wgroups = (\<lambda>_. 0),
      bconns = (\<lambda>_. \<lparr>addr = [], dbnum = 0, input = [], input_closed = False, fails = 0,
                      delay = \<lparr>delay_Min = 0, delay_Max = 0, delay_Value = 0\<rparr>,
                      state = 0, closed = False,
                      config = \<lparr>ProductAuth = [], BackendMaxPipeline = 0\<rparr>\<rparr>),
      bc_next = 0, goroutines = [],
      shareds = (\<lambda>_. \<lparr>saddr = [], owner = 0, conns = [], single = None, refcnt = 0\<rparr>),
      sh_next = 0,
      pools = (\<lambda>_. \<lparr>parallel = 0, database = 0, pool = Map.empty\<rparr>), pool_next = 0\<rparr>"

subsection \<open>Definitions used to state the properties\<close>

text \<open>
  The order in which the spec says the slots of a row of \<open>P\<close> connections are
  visited: from \<open>(seed + 1) mod P\<close>, in \<open>uint\<close> arithmetic, through all \<open>P\<close> slots.
\<close>

definition scan_order :: "64 word \<Rightarrow> nat \<Rightarrow> nat list" where
  "scan_order seed P = map (\<lambda>k. (unat ((seed + 1) mod word_of_nat P) + k) mod P) [0..<P]"

definition set_refcnt :: "ref \<Rightarrow> int \<Rightarrow> World \<Rightarrow> World" where
  "set_refcnt s n w = w\<lparr>shareds := (shareds w)(s := (shareds w s)\<lparr>refcnt := n\<rparr>)\<rparr>"

text \<open>
  Every entry of a pool map is live, records the pool and the address it is stored under,
  and has been allocated.
\<close>

definition pool_inv :: "World \<Rightarrow> bool" where
  "pool_inv w =
     (\<forall>p a s. pool (pools w p) a = Some s \<longrightarrow>
        1 \<le> refcnt (shareds w s) \<and> owner (shareds w s) = p \<and> saddr (shareds w s) = a \<and>
        s < sh_next w)"

text \<open>
  The connection that \<open>NewBackendConn\<close> builds, and a world in which \<open>n\<close> connections
  given by \<open>f\<close> have been allocated and started at once.
\<close>

definition fresh_conn :: "string \<Rightarrow> int \<Rightarrow> Config \<Rightarrow> BackendConn" where
  "fresh_conn a db cfg =
     \<lparr>addr = a, dbnum = db, input = [], input_closed = False, fails = 0,
      delay = \<lparr>delay_Min = 50, delay_Max = 5000, delay_Value = 0\<rparr>,
      state = 0, closed = False, config = cfg\<rparr>"

definition alloc_conns :: "nat \<Rightarrow> (ref \<Rightarrow> BackendConn) \<Rightarrow> World \<Rightarrow> World" where
  "alloc_conns n f w =
     w\<lparr>bconns := (\<lambda>b. if bc_next w \<le> b \<and> b < bc_next w + n then f b else bconns w b),
       bc_next := bc_next w + n,
       goroutines := goroutines w @ [bc_next w ..< bc_next w + n]\<rparr>"







text \<open>
  Two worlds for concrete checks: one address with a row of three connections of which
  the middle one is connected, and one address with a single connection.
\<close>

definition ex_cfg :: Config where
  "ex_cfg = \<lparr>ProductAuth = [], BackendMaxPipeline = 1024\<rparr>"

definition ex_bc :: "int \<Rightarrow> BackendConn" where
  "ex_bc st = \<lparr>addr = ''a:1'', dbnum = 0, input = [], input_closed = False, fails = 0,
                delay = \<lparr>delay_Min = 50, delay_Max = 5000, delay_Value = 0\<rparr>,
                state = st, closed = False, config = ex_cfg\<rparr>"

definition ex_world :: World where
  "ex_world = World0
     \<lparr>bconns := (\<lambda>b. if b = 1 then ex_bc 1 else ex_bc 0), bc_next := 3,
      goroutines := [0, 1, 2],
      shareds := (shareds World0)
        (0 := \<lparr>saddr = ''a:1'', owner = 0, conns = [[0, 1, 2]], single = None, refcnt = 1\<rparr>),
      sh_next := 1,
      pools := (pools World0)
        (0 := \<lparr>parallel = 3, database = 1, pool = [''a:1'' \<mapsto> 0]\<rparr>),
      pool_next := 1\<rparr>"

definition ex_single :: World where
  "ex_single = World0
     \<lparr>bconns := (\<lambda>b. ex_bc 0), bc_next := 1, goroutines := [0],
      shareds := (shareds World0)
        (0 := \<lparr>saddr = ''a:1'', owner = 0, conns = [[0]], single = Some 0, refcnt = 1\<rparr>),
      sh_next := 1,
      pools := (pools World0)
        (0 := \<lparr>parallel = 1, database = 1, pool = [''a:1'' \<mapsto> 0]\<rparr>),
      pool_next := 1\<rparr>"

text \<open>
  Worlds for the supervisor: a connection just created; the same with a request, counted
  in its batch, waiting in the input queue or in flight; a session whose dial is refused
  and one whose handshake succeeds; and a \<open>MASTERDOWN\<close> error frame.
\<close>

definition ex_fresh :: World where
  "ex_fresh = snd (NewBackendConn ''a:1'' 0 ex_cfg World0)"


definition ex_request :: World where
  "ex_request = ex_fresh
     \<lparr>requests := (requests ex_fresh)
        (0 := empty_Request\<lparr>Multi := [NewBulkBytes ''GET'', NewBulkBytes ''k''],
                             Batch := Some 0\<rparr>),
      req_next := 1\<rparr>"

definition ex_queued :: World where
  "ex_queued = set_input 0 [0] (wg_Add 0 1 ex_request)"

definition ex_inflight :: World where
  "ex_inflight = set_state 0 stateConnected (wg_Add 0 1 ex_request)"

definition ex_stale :: World where
  "ex_stale = set_state 0 stateDataStale ex_fresh"

definition ex_masterdown :: Resp where
  "ex_masterdown = MkResp TypeError ''MASTERDOWN the master is down'' []"

definition ex_refused :: round where
  "ex_refused =
     \<lparr>before = [],
      session_io = \<lparr>dial = Some (IOError ''connection refused''), auth_encode = None,
                    auth_reply = (None, None), select_encode = None,
                    select_reply = (None, None)\<rparr>,
      writer = [], waits = [Timer]\<rparr>"

section \<open>Properties\<close>

subsection \<open>Selection of a connection\<close>

lemma unat_step:
  fixes i :: "64 word"
  assumes "0 < P" "P < 2 ^ 64"
  shows "unat ((i + 1) mod word_of_nat P) = (unat (i + 1)) mod P"
  using assms by (simp add: unat_mod unat_of_nat)

lemma unat_step_lt:
  fixes i :: "64 word"
  assumes "0 < P" "P < 2 ^ 64"
  shows "unat ((i + 1) mod word_of_nat P) < P"
  using assms by (simp add: unat_step)

lemma unat_succ_small:
  fixes j :: "64 word"
  assumes "unat j < P" "P < 2 ^ 64"
  shows "unat (j + 1) = unat j + 1"
proof -
  have "unat (j + 1) = (unat j + 1) mod 2 ^ 64"
    by (simp add: unat_word_ariths)
  moreover have "unat j + 1 < 2 ^ 64" using assms by simp
  ultimately show ?thesis by simp
qed

lemma scan_find:
  assumes "0 < length cs" "length cs < 2 ^ 64" 
  shows "scan cs n i w =
     map_option (\<lambda>j. cs ! j)
       (find (\<lambda>j. IsConnected (cs ! j) w)
          (map (\<lambda>k. (unat ((i + 1) mod word_of_nat (length cs)) + k) mod length cs) [0..<n]))"
proof (induction n arbitrary: i)
  case 0
  then show ?case by simp
next
  case (Suc n)
  let ?P = "length cs"
  let ?i' = "(i + 1) mod word_of_nat ?P"
  have lt: "unat ?i' < ?P" using assms by (rule unat_step_lt)
  have suc: "unat (?i' + 1) = unat ?i' + 1"
    using lt assms(2) by (rule unat_succ_small)
  have "unat ((?i' + 1) mod word_of_nat ?P) = unat (?i' + 1) mod ?P"
    using assms by (rule unat_step)
  then have nxt: "unat ((?i' + 1) mod word_of_nat ?P) = (unat ?i' + 1) mod ?P"
    by (simp only: suc)
  have upt: "[0..<Suc n] = 0 # map Suc [0..<n]"
    by (simp add: upt_conv_Cons map_Suc_upt del: upt_Suc)
  have shift: "\<And>k. (Suc (unat ?i') mod ?P + k) mod ?P = Suc (unat ?i' + k) mod ?P"
    by (simp add: mod_add_left_eq)
  show ?case
    unfolding upt
    using lt by (simp add: Let_def Suc.IH nxt shift comp_def del: upt_Suc)
qed

lemma scan_all: 
  assumes "0 < length cs" "length cs < 2 ^ 64" 
  shows "scan cs (length cs) seed w = map_option (\<lambda>j. cs ! j) (find (\<lambda>j. IsConnected (cs ! j) w) (scan_order seed (length cs)))"
  unfolding scan_order_def using assms by (rule scan_find)

lemma scan_order_length: "length (scan_order seed P) = P"
  by (simp add: scan_order_def)

lemma scan_order_nth: "k < P \<Longrightarrow> scan_order seed P ! k = (unat ((seed + 1) mod word_of_nat P) + k) mod P"
  by (simp add: scan_order_def)

lemma scan_order_lt: "0 < P \<Longrightarrow> j \<in> set (scan_order seed P) \<Longrightarrow> j < P"
  by (auto simp: scan_order_def)

lemma scan_order_covers:
  fixes j P s :: nat
  assumes "j < P"
  shows "\<exists>k<P. (s + k) mod P = j"
proof -
  let ?k = "(j + (P - s mod P)) mod P"
  have "?k < P" using assms by simp
  moreover have "(s + ?k) mod P = j"
  proof -
    have "(s + ?k) mod P = (s mod P + (j + (P - s mod P))) mod P"
      by (simp add: mod_add_eq mod_add_right_eq mod_add_left_eq)
    also have "s mod P + (j + (P - s mod P)) = j + P"
    proof -
      have "s mod P < P" using assms by simp
      then show ?thesis by arith
    qed
    also have "(j + P) mod P = j" using assms by simp
    finally show ?thesis .
  qed
  ultimately show ?thesis by blast
qed

lemma find_first:
  assumes "k < length xs" "Q (xs ! k)" "\<forall>k'<k. \<not> Q (xs ! k')"
  shows "find Q xs = Some (xs ! k)"
  using assms by (auto simp: find_Some_iff)

lemma find_none: "(\<forall>x\<in>set xs. \<not> Q x) \<Longrightarrow> find Q xs = None"
  by (simp add: find_None_iff)

lemma ex_world_simps:
  "shareds ex_world 0 = \<lparr>saddr = ''a:1'', owner = 0, conns = [[0, 1, 2]], single = None, refcnt = 1\<rparr>"
  "IsConnected b ex_world = (b = 1)"
  "pools ex_world 0 = \<lparr>parallel = 3, database = 1, pool = [''a:1'' \<mapsto> 0]\<rparr>"
  by (simp_all add: ex_world_def World0_def IsConnected_def ex_bc_def stateConnected_def)

text \<open>
  C2. The selection policy of \<open>BackendConn(db, seed, must)\<close> on a row \<open>cs = conns[db]\<close>
  of \<open>P\<close> connections: a nil receiver gives nil; with the \<open>single\<close> shortcut set the
  result is that connection when \<open>must\<close> holds or it is connected, and nil otherwise;
  without the shortcut the result is the first connected slot in the order
  \<open>(seed + 1) mod P, (seed + 2) mod P, ...\<close>, which visits every slot; and when no slot
  is connected the result is nil without \<open>must\<close> and slot 0 with it. The start
  \<open>(seed + 1) mod P\<close> is computed in \<open>uint\<close> arithmetic, which is the arithmetic of the
  natural numbers unless \<open>seed\<close> is the largest \<open>uint\<close>.
\<close>

theorem BackendConn_policy:
  assumes db: "0 \<le> db" "db < int (length (conns (shareds w s)))"
      and cs: "cs = conns (shareds w s) ! nat db" "cs \<noteq> []" "length cs < 2 ^ 64"
  shows "BackendConn None db seed must w = Inr None \<and>
         (\<forall>bc. single (shareds w s) = Some bc \<longrightarrow>
            BackendConn (Some s) db seed must w =
              Inr (if must \<or> IsConnected bc w then Some bc else None)) \<and>
         (\<forall>k<length cs.
            single (shareds w s) = None \<and>
            IsConnected (cs ! (scan_order seed (length cs) ! k)) w \<and>
            (\<forall>k'<k. \<not> IsConnected (cs ! (scan_order seed (length cs) ! k')) w) \<longrightarrow>
            BackendConn (Some s) db seed must w = Inr (Some (cs ! (scan_order seed (length cs) ! k)))) \<and>
         (single (shareds w s) = None \<and> (\<forall>j<length cs. \<not> IsConnected (cs ! j) w) \<longrightarrow>
            BackendConn (Some s) db seed must w = Inr (if must then Some (cs ! 0) else None)) \<and>
         (\<forall>k<length cs. scan_order seed (length cs) ! k =
              (unat ((seed + 1) mod word_of_nat (length cs)) + k) mod length cs) \<and>
         (\<forall>j<length cs. \<exists>k<length cs. scan_order seed (length cs) ! k = j) \<and>
         (unat seed + 1 < 2 ^ 64 \<longrightarrow>
            unat ((seed + 1) mod word_of_nat (length cs)) = (unat seed + 1) mod length cs)"
proof (intro conjI allI impI)
  show "BackendConn None db seed must w = Inr None"
    by (simp add: BackendConn_def)
next
  fix bc assume "single (shareds w s) = Some bc"
  then show "BackendConn (Some s) db seed must w =
              Inr (if must \<or> IsConnected bc w then Some bc else None)"
    by (simp add: BackendConn_def)
next
  fix k
  assume k: "k < length cs"
    and h: "single (shareds w s) = None \<and>
            IsConnected (cs ! (scan_order seed (length cs) ! k)) w \<and>
            (\<forall>k'<k. \<not> IsConnected (cs ! (scan_order seed (length cs) ! k')) w)"
  have "find (\<lambda>j. IsConnected (cs ! j) w) (scan_order seed (length cs)) =
          Some (scan_order seed (length cs) ! k)"
    using k h by (intro find_first) (simp_all add: scan_order_length)
  then have "scan cs (length cs) seed w = Some (cs ! (scan_order seed (length cs) ! k))"
    using cs by (simp add: scan_all)
  then show "BackendConn (Some s) db seed must w = Inr (Some (cs ! (scan_order seed (length cs) ! k)))"
    using db cs(1) h by (simp add: BackendConn_def Let_def)
next
  assume h: "single (shareds w s) = None \<and> (\<forall>j<length cs. \<not> IsConnected (cs ! j) w)"
  have "find (\<lambda>j. IsConnected (cs ! j) w) (scan_order seed (length cs)) = None"
    using h cs(2) by (intro find_none) (auto dest: scan_order_lt [rotated])
  then have "scan cs (length cs) seed w = None"
    using cs by (simp add: scan_all)
  then show "BackendConn (Some s) db seed must w = Inr (if must then Some (cs ! 0) else None)"
    using db cs(1,2) h by (simp add: BackendConn_def Let_def)
next
  fix k assume "k < length cs"
  then show "scan_order seed (length cs) ! k =
              (unat ((seed + 1) mod word_of_nat (length cs)) + k) mod length cs"
    by (rule scan_order_nth)
next
  fix j assume j: "j < length cs"
  then obtain k where "k < length cs" "(unat ((seed + 1) mod word_of_nat (length cs)) + k) mod length cs = j"
    using scan_order_covers by blast
  then show "\<exists>k<length cs. scan_order seed (length cs) ! k = j"
    by (auto simp: scan_order_nth)
next
  assume "unat seed + 1 < 2 ^ 64"
  then have "unat seed < 2 ^ 64 - 1" by simp
  moreover have "(2::nat) ^ 64 - 1 < 2 ^ 64" by simp
  ultimately have "unat (seed + 1) = unat seed + 1" by (rule unat_succ_small)
  moreover have "unat ((seed + 1) mod word_of_nat (length cs)) = unat (seed + 1) mod length cs"
    using cs(2,3) by (intro unat_step) simp_all
  ultimately show "unat ((seed + 1) mod word_of_nat (length cs)) = (unat seed + 1) mod length cs"
    by simp
qed

theorem BackendConn_policy_witness:
  "(0::int) \<le> 0 \<and> 0 < int (length (conns (shareds ex_world 0))) \<and>
   [0, 1, 2] = conns (shareds ex_world 0) ! nat 0 \<and> [0, 1, 2::ref] \<noteq> [] \<and>
   length [0, 1, 2::ref] < 2 ^ 64 \<and>
   scan_order (- 1) 3 ! 1 = 1 \<and>
   BackendConn (Some 0) 0 (- 1) False ex_world = Inr (Some 1)"
proof -
  have h: "(0::int) \<le> 0" "0 < int (length (conns (shareds ex_world 0)))"
    "[0, 1, 2] = conns (shareds ex_world 0) ! nat 0" "[0, 1, 2::ref] \<noteq> []"
    "length [0, 1, 2::ref] < 2 ^ 64"
    by (simp_all add: ex_world_simps)
  note pol = BackendConn_policy [OF h, of "- 1" False]
  have so: "scan_order (- 1) 3 ! 0 = 0" "scan_order (- 1) 3 ! 1 = 1"
    by (simp_all add: scan_order_def)
  from pol have "\<forall>k<length [0, 1, 2::ref].
            single (shareds ex_world 0) = None \<and>
            IsConnected ([0, 1, 2] ! (scan_order (- 1) (length [0, 1, 2::ref]) ! k)) ex_world \<and>
            (\<forall>k'<k. \<not> IsConnected ([0, 1, 2] ! (scan_order (- 1) (length [0, 1, 2::ref]) ! k')) ex_world) \<longrightarrow>
            BackendConn (Some 0) 0 (- 1) False ex_world =
              Inr (Some ([0, 1, 2] ! (scan_order (- 1) (length [0, 1, 2::ref]) ! k)))"
    by blast
  then have "1 < length [0, 1, 2::ref] \<longrightarrow> single (shareds ex_world 0) = None \<and>
            IsConnected ([0, 1, 2] ! (scan_order (- 1) (length [0, 1, 2::ref]) ! 1)) ex_world \<and>
            (\<forall>k'<1. \<not> IsConnected ([0, 1, 2] ! (scan_order (- 1) (length [0, 1, 2::ref]) ! k')) ex_world) \<longrightarrow>
            BackendConn (Some 0) 0 (- 1) False ex_world =
              Inr (Some ([0, 1, 2] ! (scan_order (- 1) (length [0, 1, 2::ref]) ! 1)))"
    by (rule spec)
  moreover have "scan_order (- 1) (length [0, 1, 2::ref]) ! 0 = 0"
    "scan_order (- 1) (length [0, 1, 2::ref]) ! 1 = 1"
    by (simp_all add: scan_order_def)
  ultimately have "BackendConn (Some 0) 0 (- 1) False ex_world = Inr (Some 1)"
    by (simp add: ex_world_simps)
  with h so show ?thesis by simp
qed

text \<open>
  C10. With the \<open>single\<close> shortcut set, \<open>BackendConn\<close> does not depend on \<open>db\<close> or
  \<open>seed\<close>: any two calls with the same \<open>must\<close> return the same, the single connection
  when \<open>must\<close> holds or it is connected, and nil otherwise.
\<close>

theorem BackendConn_single_shortcut:
  assumes "single (shareds w s) = Some bc"
  shows "BackendConn (Some s) db1 seed1 must w = BackendConn (Some s) db2 seed2 must w \<and>
         BackendConn (Some s) db1 seed1 must w =
           Inr (if must \<or> IsConnected bc w then Some bc else None)"
  using assms by (simp add: BackendConn_def)

theorem BackendConn_single_shortcut_witness:
  "single (shareds ex_single 0) = Some 0 \<and>
   BackendConn (Some 0) 7 3 True ex_single = BackendConn (Some 0) 0 9 True ex_single \<and>
   BackendConn (Some 0) 7 3 True ex_single = Inr (Some 0) \<and>
   BackendConn (Some 0) 7 3 False ex_single = Inr None"
proof -
  have h: "single (shareds ex_single 0) = Some 0"
    by (simp add: ex_single_def World0_def)
  have nc: "\<not> IsConnected 0 ex_single"
    by (simp add: ex_single_def World0_def IsConnected_def ex_bc_def stateConnected_def)
  have a: "BackendConn (Some 0) 7 3 True ex_single = BackendConn (Some 0) 0 9 True ex_single"
    using BackendConn_single_shortcut [OF h, of 7 3 True 0 9, THEN conjunct1] .
  have b: "BackendConn (Some 0) 7 3 True ex_single = Inr (Some 0)"
    using BackendConn_single_shortcut [OF h, of 7 3 True 0 9, THEN conjunct2] by simp
  have c: "BackendConn (Some 0) 7 3 False ex_single = Inr None"
    using BackendConn_single_shortcut [OF h, of 7 3 False 0 9, THEN conjunct2] nc by simp
  show ?thesis
    using h a b c by (intro conjI)
qed

subsection \<open>Reference counting\<close>

lemma close_bc_idem: "close_bc (close_bc c) = close_bc c"
  by (simp add: close_bc_def)

lemma fold_Close:
  "fold Close row w =
     w\<lparr>bconns := (\<lambda>b. if b \<in> set row then close_bc (bconns w b) else bconns w b)\<rparr>"
proof (induction row arbitrary: w)
  case Nil
  then show ?case by simp
next
  case (Cons p row)
  have "(\<lambda>b. if b \<in> set row then close_bc (bconns (Close p w) b) else bconns (Close p w) b) =
        (\<lambda>b. if b \<in> set (p # row) then close_bc (bconns w b) else bconns w b)"
    by (rule ext) (simp add: Close_def close_bc_idem)
  then show ?case
    by (simp add: Cons.IH) (simp add: Close_def)
qed

lemma close_all_Nil: "close_all [] w = w"
  by (simp add: close_all_def)

lemma close_all_Cons: "close_all (row # grid) w = close_all grid (fold Close row w)"
  by (simp add: close_all_def)

lemma close_all_eq:
  "close_all grid w =
     w\<lparr>bconns := (\<lambda>b. if b \<in> set (concat grid) then close_bc (bconns w b) else bconns w b)\<rparr>"
proof (induction grid arbitrary: w)
  case Nil
  then show ?case by (simp add: close_all_Nil)
next
  case (Cons row grid)
  let ?w1 = "fold Close row w"
  have b1: "bconns ?w1 = (\<lambda>b. if b \<in> set row then close_bc (bconns w b) else bconns w b)"
    by (simp add: fold_Close)
  have "(\<lambda>b. if b \<in> set (concat grid) then close_bc (bconns ?w1 b) else bconns ?w1 b) =
        (\<lambda>b. if b \<in> set (concat (row # grid)) then close_bc (bconns w b) else bconns w b)"
    unfolding b1 by (rule ext) (simp add: close_bc_idem)
  then have "close_all grid ?w1 =
      ?w1\<lparr>bconns := (\<lambda>b. if b \<in> set (concat (row # grid)) then close_bc (bconns w b) else bconns w b)\<rparr>"
    using Cons.IH [of ?w1] by simp
  then show ?case
    by (simp add: close_all_Cons fold_Close)
qed

text \<open>
  C4. \<open>Release\<close> on a nil receiver changes nothing. On an entry whose \<open>refcnt\<close> is not
  positive it takes the fatal path. On an entry with \<open>refcnt\<close> above 1 it decrements
  the counter and leaves every connection and every pool map as they were. On an entry
  with \<open>refcnt\<close> 1 it brings the counter to zero, calls \<open>Close\<close> on every connection
  of the grid (and on no other) and deletes the entry's address from the map of the
  owning pool.
\<close>

theorem Release_behaviour:
  "Release None w = Inr w \<and>
   (refcnt (shareds w s) \<le> 0 \<longrightarrow>
      Release (Some s) w =
        Inl (LogPanic ''shared backend conn has been closed, close too many times'')) \<and>
   (1 < refcnt (shareds w s) \<longrightarrow>
      (\<exists>w'. Release (Some s) w = Inr w' \<and>
            shareds w' = (shareds w)(s := (shareds w s)\<lparr>refcnt := refcnt (shareds w s) - 1\<rparr>) \<and>
            bconns w' = bconns w \<and> pools w' = pools w)) \<and>
   (refcnt (shareds w s) = 1 \<longrightarrow>
      (\<exists>w'. Release (Some s) w = Inr w' \<and>
            shareds w' = (shareds w)(s := (shareds w s)\<lparr>refcnt := 0\<rparr>) \<and>
            (\<forall>b. bconns w' b =
                  (if b \<in> set (concat (conns (shareds w s)))
                   then bconns (Close b w) b else bconns w b)) \<and>
            (\<forall>b \<in> set (concat (conns (shareds w s))).
                  closed (bconns w' b) \<and> input_closed (bconns w' b)) \<and>
            pools w' = (pools w)(owner (shareds w s) :=
                (pools w (owner (shareds w s)))
                  \<lparr>pool := (pool (pools w (owner (shareds w s))))(saddr (shareds w s) := None)\<rparr>)))"
proof (intro conjI impI)
  show "Release None w = Inr w"
    by (simp add: Release_def)
next
  assume "refcnt (shareds w s) \<le> 0"
  then show "Release (Some s) w =
        Inl (LogPanic ''shared backend conn has been closed, close too many times'')"
    by (simp add: Release_def Let_def)
next
  assume "1 < refcnt (shareds w s)"
  then show "\<exists>w'. Release (Some s) w = Inr w' \<and>
            shareds w' = (shareds w)(s := (shareds w s)\<lparr>refcnt := refcnt (shareds w s) - 1\<rparr>) \<and>
            bconns w' = bconns w \<and> pools w' = pools w"
    by (simp add: Release_def Let_def)
next
  assume one: "refcnt (shareds w s) = 1"
  let ?sh = "shareds w s"
  let ?w' = "w\<lparr>shareds := (shareds w)(s := ?sh\<lparr>refcnt := 0\<rparr>),
               bconns := (\<lambda>b. if b \<in> set (concat (conns ?sh))
                               then close_bc (bconns w b) else bconns w b),
               pools := (pools w)(owner ?sh :=
                  (pools w (owner ?sh))\<lparr>pool := (pool (pools w (owner ?sh)))(saddr ?sh := None)\<rparr>)\<rparr>"
  have eq: "Release (Some s) w = Inr ?w'"
    using one by (simp add: Release_def Let_def close_all_eq cong: if_cong)
  have p1: "shareds ?w' = (shareds w)(s := ?sh\<lparr>refcnt := 0\<rparr>)"
    by simp
  have p2: "\<forall>b. bconns ?w' b =
                  (if b \<in> set (concat (conns ?sh)) then bconns (Close b w) b else bconns w b)"
    by (simp add: Close_def)
  have p3: "\<forall>b \<in> set (concat (conns ?sh)). closed (bconns ?w' b) \<and> input_closed (bconns ?w' b)"
    by (simp add: close_bc_def)
  have p4: "pools ?w' = (pools w)(owner ?sh :=
                (pools w (owner ?sh))\<lparr>pool := (pool (pools w (owner ?sh)))(saddr ?sh := None)\<rparr>)"
    by simp
  show "\<exists>w'. Release (Some s) w = Inr w' \<and>
            shareds w' = (shareds w)(s := (shareds w s)\<lparr>refcnt := 0\<rparr>) \<and>
            (\<forall>b. bconns w' b =
                  (if b \<in> set (concat (conns (shareds w s)))
                   then bconns (Close b w) b else bconns w b)) \<and>
            (\<forall>b \<in> set (concat (conns (shareds w s))).
                  closed (bconns w' b) \<and> input_closed (bconns w' b)) \<and>
            pools w' = (pools w)(owner (shareds w s) :=
                (pools w (owner (shareds w s)))
                  \<lparr>pool := (pool (pools w (owner (shareds w s))))(saddr (shareds w s) := None)\<rparr>)"
    using eq p1 p2 p3 p4 by blast
qed

theorem Release_behaviour_witness:
  "refcnt (shareds ex_world 0) = 1 \<and>
   (\<exists>w'. Release (Some 0) ex_world = Inr w' \<and> refcnt (shareds w' 0) = 0 \<and>
      closed (bconns w' 2) \<and> pool (pools w' 0) ''a:1'' = None) \<and>
   Release (Some 5) ex_world =
     Inl (LogPanic ''shared backend conn has been closed, close too many times'')"
proof -
  have h: "refcnt (shareds ex_world 0) = 1" "\<not> 1 < refcnt (shareds ex_world 0)"
    "refcnt (shareds ex_world 5) \<le> 0"
    by (simp_all add: ex_world_def World0_def)
  have g: "(2::ref) \<in> set (concat (conns (shareds ex_world 0)))"
    "owner (shareds ex_world 0) = 0" "saddr (shareds ex_world 0) = ''a:1''"
    by (simp_all add: ex_world_simps)
  from Release_behaviour [of ex_world 0] h
  obtain w' where w': "Release (Some 0) ex_world = Inr w'"
    "shareds w' = (shareds ex_world)(0 := (shareds ex_world 0)\<lparr>refcnt := 0\<rparr>)"
    "\<forall>b \<in> set (concat (conns (shareds ex_world 0))).
        closed (bconns w' b) \<and> input_closed (bconns w' b)"
    "pools w' = (pools ex_world)(owner (shareds ex_world 0) :=
                (pools ex_world (owner (shareds ex_world 0)))
                  \<lparr>pool := (pool (pools ex_world (owner (shareds ex_world 0))))
                     (saddr (shareds ex_world 0) := None)\<rparr>)"
    by blast
  have a: "refcnt (shareds w' 0) = 0" using w'(2) by simp
  have b: "closed (bconns w' 2)" using w'(3) g(1) by blast
  have c: "pool (pools w' 0) ''a:1'' = None" using w'(4) g(2,3) by simp
  have d: "Release (Some 5) ex_world =
     Inl (LogPanic ''shared backend conn has been closed, close too many times'')"
    using Release_behaviour [of ex_world 5] h(3) by blast
  show ?thesis using h(1) w'(1) a b c d by blast
qed

lemma set_refcnt_simps:
  "refcnt (shareds (set_refcnt s n w) s) = n"
  "set_refcnt s m (set_refcnt s n w) = set_refcnt s m w"
  "set_refcnt s (refcnt (shareds w s)) w = w"
  by (simp_all add: set_refcnt_def)

lemma Retain_live:
  "1 \<le> refcnt (shareds w s) \<Longrightarrow>
   Retain (Some s) w = Inr (Some s, set_refcnt s (refcnt (shareds w s) + 1) w)"
  by (simp add: Retain_def Let_def set_refcnt_def)

lemma Release_shared:
  "1 < refcnt (shareds w s) \<Longrightarrow>
   Release (Some s) w = Inr (set_refcnt s (refcnt (shareds w s) - 1) w)"
  by (simp add: Release_def Let_def set_refcnt_def)

lemma Retain_times_live:
  "1 \<le> refcnt (shareds w s) \<Longrightarrow>
   Retain_times n s w = Inr (set_refcnt s (refcnt (shareds w s) + int n) w)"
proof (induction n arbitrary: w)
  case 0
  then show ?case by (simp add: set_refcnt_simps)
next
  case (Suc n)
  have "1 \<le> refcnt (shareds (set_refcnt s (refcnt (shareds w s) + 1) w) s)"
    using Suc.prems by (simp add: set_refcnt_simps)
  from Suc.IH [OF this] show ?case
    using Suc.prems by (simp add: Retain_live set_refcnt_simps add.assoc)
qed

lemma Release_times_shared:
  "int n < refcnt (shareds w s) \<Longrightarrow>
   Release_times n s w = Inr (set_refcnt s (refcnt (shareds w s) - int n) w)"
proof (induction n arbitrary: w)
  case 0
  then show ?case by (simp add: set_refcnt_simps)
next
  case (Suc n)
  have "int n < refcnt (shareds (set_refcnt s (refcnt (shareds w s) - 1) w) s)"
    using Suc.prems by (simp add: set_refcnt_simps)
  from Suc.IH [OF this] show ?case
    using Suc.prems by (simp add: Release_shared set_refcnt_simps algebra_simps)
qed

text \<open>
  C5. On a live entry (\<open>refcnt\<close> at least 1), \<open>n\<close> calls of \<open>Retain\<close> followed by \<open>n\<close>
  calls of \<open>Release\<close> all return and give back the world they started from: the
  counter, the pool maps and every connection are as before, so nothing is closed or
  removed.
\<close>

theorem Retain_Release_balance:
  assumes "1 \<le> refcnt (shareds w s)"
  shows "\<exists>w1. Retain_times n s w = Inr w1 \<and>
              refcnt (shareds w1 s) = refcnt (shareds w s) + int n \<and>
              bconns w1 = bconns w \<and> pools w1 = pools w \<and>
              Release_times n s w1 = Inr w"
proof -
  let ?w1 = "set_refcnt s (refcnt (shareds w s) + int n) w"
  have a: "Retain_times n s w = Inr ?w1"
    using assms by (rule Retain_times_live)
  have "int n < refcnt (shareds ?w1 s)"
    using assms by (simp add: set_refcnt_simps)
  then have "Release_times n s ?w1 = Inr (set_refcnt s (refcnt (shareds ?w1 s) - int n) ?w1)"
    by (rule Release_times_shared)
  then have b: "Release_times n s ?w1 = Inr w"
    by (simp add: set_refcnt_simps)
  have c: "bconns ?w1 = bconns w" "pools ?w1 = pools w"
    by (simp_all add: set_refcnt_def)
  show ?thesis
    using a b c by (intro exI [of _ ?w1]) (simp add: set_refcnt_simps)
qed

theorem Retain_Release_balance_witness:
  "1 \<le> refcnt (shareds ex_world 0) \<and>
   (\<exists>w1. Retain_times 3 0 ex_world = Inr w1 \<and> refcnt (shareds w1 0) = 4 \<and>
      Release_times 3 0 w1 = Inr ex_world)"
proof -
  have h: "1 \<le> refcnt (shareds ex_world 0)" and r: "refcnt (shareds ex_world 0) = 1"
    by (simp_all add: ex_world_simps)
  from Retain_Release_balance [OF h, of 3] r h show ?thesis
    by auto
qed

subsection \<open>The pool\<close>

text \<open>
  C9. When the map of the pool has an entry for the address, \<open>Retain(addr, config)\<close> of
  the pool does not depend on \<open>config\<close>: with any two configs it behaves the same, and
  when it returns it returns the existing entry, with the grid of that entry and every
  connection (its config included) as they were, and no connection created or started.
\<close>

theorem pool_Retain_ignores_config:
  assumes "pool (pools w p) a = Some sp"
  shows "pool_Retain p a c1 w = pool_Retain p a c2 w \<and>
         (\<forall>res w'. pool_Retain p a c1 w = Inr (res, w') \<longrightarrow>
            res = Some sp \<and> bconns w' = bconns w \<and> bc_next w' = bc_next w \<and>
            goroutines w' = goroutines w \<and> sh_next w' = sh_next w \<and>
            conns (shareds w' sp) = conns (shareds w sp) \<and>
            single (shareds w' sp) = single (shareds w sp))"
  using assms by (auto simp: pool_Retain_def Retain_def Let_def split: if_splits)

theorem pool_Retain_ignores_config_witness:
  "pool (pools ex_world 0) ''a:1'' = Some 0 \<and>
   pool_Retain 0 ''a:1'' ex_cfg ex_world =
     pool_Retain 0 ''a:1'' (ex_cfg\<lparr>ProductAuth := ''secret''\<rparr>) ex_world"
proof -
  have h: "pool (pools ex_world 0) ''a:1'' = Some 0"
    by (simp add: ex_world_simps)
  from pool_Retain_ignores_config [OF h] h show ?thesis
    by blast
qed

lemma NewBackendConn_eq:
  "NewBackendConn a db cfg w = (bc_next w, alloc_conns 1 (\<lambda>_. fresh_conn a db cfg) w)"
  unfolding NewBackendConn_def Let_def prod.inject
  by (rule conjI [OF refl], rule World.equality)
    (auto simp: alloc_conns_def fresh_conn_def fun_eq_iff)

lemma upt_split: "[p..<p + m] @ [p + m..<p + m + n] = [p..<p + (m + n)]"
  using upt_add_eq_append [of p "p + m" n] by (simp add: add.assoc)

lemma alloc_conns_alloc_conns:
  "alloc_conns n g (alloc_conns m f w) =
     alloc_conns (m + n) (\<lambda>b. if b < bc_next w + m then f b else g b) w"
  by (rule World.equality) (auto simp: alloc_conns_def fun_eq_iff upt_split)

lemma alloc_conns_cong:
  assumes "\<And>b. bc_next w \<le> b \<Longrightarrow> b < bc_next w + n \<Longrightarrow> f b = g b"
  shows "alloc_conns n f w = alloc_conns n g w"
  by (rule World.equality) (auto simp: alloc_conns_def fun_eq_iff assms)

lemma alloc_conns_0: "alloc_conns 0 f w = w"
  by (rule World.equality) (auto simp: alloc_conns_def fun_eq_iff)

lemma new_row_eq:
  "new_row a db cfg n w =
     ([bc_next w ..< bc_next w + n], alloc_conns n (\<lambda>_. fresh_conn a db cfg) w)"
proof (induction n arbitrary: w)
  case 0
  then show ?case by (simp add: alloc_conns_0)
next
  case (Suc n)
  let ?w1 = "alloc_conns 1 (\<lambda>_. fresh_conn a db cfg) w"
  have nx: "bc_next ?w1 = Suc (bc_next w)"
    by (simp add: alloc_conns_def)
  have l: "bc_next w # [Suc (bc_next w) ..< Suc (bc_next w) + n] = [bc_next w ..< bc_next w + Suc n]"
    by (simp add: upt_conv_Cons del: upt_Suc)
  have a: "alloc_conns n (\<lambda>_. fresh_conn a db cfg) ?w1 =
           alloc_conns (Suc n) (\<lambda>_. fresh_conn a db cfg) w"
    by (simp add: alloc_conns_alloc_conns)
  have "new_row a db cfg (Suc n) w =
          (bc_next w # [bc_next ?w1 ..< bc_next ?w1 + n],
           alloc_conns n (\<lambda>_. fresh_conn a db cfg) ?w1)"
    by (simp add: NewBackendConn_eq Suc.IH del: upt_Suc)
  then show ?case
    by (simp only: nx l a)
qed

lemma new_grid_eq:
  "new_grid a cfg par db n w =
     (map (\<lambda>r. [bc_next w + r * par ..< bc_next w + r * par + par]) [0..<n],
      alloc_conns (n * par)
        (\<lambda>b. fresh_conn a (db + int ((b - bc_next w) div par)) cfg) w)"
proof (induction n arbitrary: db w)
  case 0
  then show ?case by (simp add: alloc_conns_0)
next
  case (Suc n)
  let ?p = "bc_next w"
  let ?w1 = "alloc_conns par (\<lambda>_. fresh_conn a db cfg) w"
  let ?f = "\<lambda>b. fresh_conn a (db + int ((b - ?p) div par)) cfg"
  have nx: "bc_next ?w1 = ?p + par"
    by (simp add: alloc_conns_def)
  have step: "new_grid a cfg par db (Suc n) w =
      ([?p ..< ?p + par] #
         map (\<lambda>r. [bc_next ?w1 + r * par ..< bc_next ?w1 + r * par + par]) [0..<n],
       alloc_conns (n * par)
         (\<lambda>b. fresh_conn a (db + 1 + int ((b - bc_next ?w1) div par)) cfg) ?w1)"
    by (simp add: new_row_eq Suc.IH del: upt_Suc)
  have upt: "[0..<Suc n] = 0 # map Suc [0..<n]"
    by (simp add: upt_conv_Cons map_Suc_upt del: upt_Suc)
  have rows: "[?p ..< ?p + par] #
         map (\<lambda>r. [?p + par + r * par ..< ?p + par + r * par + par]) [0..<n] =
        map (\<lambda>r. [?p + r * par ..< ?p + r * par + par]) [0..<Suc n]"
    unfolding upt by (simp add: comp_def add.assoc add.left_commute del: upt_Suc)
  have conns: "alloc_conns (n * par)
         (\<lambda>b. fresh_conn a (db + 1 + int ((b - (?p + par)) div par)) cfg) ?w1 =
        alloc_conns (Suc n * par) ?f w"
  proof (cases "par = 0")
    case True
    then show ?thesis by (simp add: alloc_conns_0)
  next
    case False
    have shift: "db + 1 + int ((b - (?p + par)) div par) = db + int ((b - ?p) div par)"
      if le: "?p + par \<le> b" for b
    proof -
      have "b - ?p = (b - (?p + par)) + par" using le by simp
      then have "(b - ?p) div par = ((b - (?p + par)) + par) div par"
        by (rule arg_cong)
      also have "\<dots> = (b - (?p + par)) div par + 1"
        using False by (rule div_add_self2)
      finally show ?thesis by simp
    qed
    have "alloc_conns (n * par)
         (\<lambda>b. fresh_conn a (db + 1 + int ((b - (?p + par)) div par)) cfg) ?w1 =
        alloc_conns (par + n * par)
          (\<lambda>b. if b < ?p + par then fresh_conn a db cfg
                else fresh_conn a (db + 1 + int ((b - (?p + par)) div par)) cfg) w"
      by (rule alloc_conns_alloc_conns)
    also have "\<dots> = alloc_conns (par + n * par) ?f w"
    proof (rule alloc_conns_cong)
      fix b assume "?p \<le> b" "b < ?p + (par + n * par)"
      show "(if b < ?p + par then fresh_conn a db cfg
             else fresh_conn a (db + 1 + int ((b - (?p + par)) div par)) cfg) = ?f b"
      proof (cases "b < ?p + par")
        case True
        with \<open>?p \<le> b\<close> have "(b - ?p) div par = 0" by simp
        with True show ?thesis by simp
      next
        case False
        then show ?thesis by (simp add: shift)
      qed
    qed
    finally show ?thesis by simp
  qed
  show ?case
    unfolding step nx rows conns ..
qed





text \<open>
  The invariant of the pool maps holds in the empty world and is kept by every operation
  of a pool and of its entries that returns.
\<close>

lemma pool_inv_World0: "pool_inv World0"
  by (simp add: pool_inv_def World0_def)

lemma pool_inv_newSharedBackendConnPool:
  "pool_inv w \<Longrightarrow> pool_inv (snd (newSharedBackendConnPool par db w))"
  by (auto simp: pool_inv_def newSharedBackendConnPool_def Let_def split: if_splits)

lemma pool_inv_Retain:
  assumes "pool_inv w" "Retain sp w = Inr (res, w')"
  shows "pool_inv w'"
  using assms
  by (auto simp: pool_inv_def Retain_def Let_def split: option.splits if_splits)

lemma pool_inv_Release:
  assumes "pool_inv w" "Release sp w = Inr w'"
  shows "pool_inv w'"
proof (cases sp)
  case None
  with assms show ?thesis by (simp add: Release_def)
next
  case (Some s)
  show ?thesis
  proof (cases "1 < refcnt (shareds w s)")
    case True
    with assms Some show ?thesis
      by (auto simp: pool_inv_def Release_def Let_def split: if_splits)
  next
    case False
    with assms(2) Some have one: "refcnt (shareds w s) = 1"
      by (auto simp: Release_def Let_def split: if_splits)
    let ?sh = "shareds w s"
    from assms(2) Some one have w': "w' =
        w\<lparr>shareds := (shareds w)(s := ?sh\<lparr>refcnt := 0\<rparr>),
          bconns := (\<lambda>b. if b \<in> set (concat (conns ?sh))
                          then close_bc (bconns w b) else bconns w b),
          pools := (pools w)(owner ?sh :=
             (pools w (owner ?sh))\<lparr>pool := (pool (pools w (owner ?sh)))(saddr ?sh := None)\<rparr>)\<rparr>"
      by (simp add: Release_def Let_def close_all_eq cong: if_cong)
    show ?thesis
      unfolding pool_inv_def
    proof (intro allI impI)
      fix p a s'
      assume m: "pool (pools w' p) a = Some s'"
      then have old: "pool (pools w p) a = Some s'" and ne: "\<not> (p = owner ?sh \<and> a = saddr ?sh)"
        unfolding w' by (auto split: if_splits)
      from assms(1) old have i: "1 \<le> refcnt (shareds w s')" "owner (shareds w s') = p"
        "saddr (shareds w s') = a" "s' < sh_next w"
        by (auto simp: pool_inv_def)
      with ne have "s' \<noteq> s" by auto
      with i show "1 \<le> refcnt (shareds w' s') \<and> owner (shareds w' s') = p \<and>
          saddr (shareds w' s') = a \<and> s' < sh_next w'"
        unfolding w' by simp
    qed
  qed
qed

lemma pool_inv_pool_Retain:
  assumes "pool_inv w" "pool_Retain p a cfg w = Inr (res, w')"
  shows "pool_inv w'"
proof (cases "pool (pools w p) a")
  case (Some s)
  with assms(2) have "Retain (Some s) w = Inr (res, w')"
    by (simp add: pool_Retain_def)
  with assms(1) show ?thesis by (rule pool_inv_Retain)
next
  case None
  let ?po = "pools w p"
  let ?w1 = "alloc_conns (nat (database ?po) * nat (parallel ?po))
      (\<lambda>b. fresh_conn a (0 + int ((b - bc_next w) div nat (parallel ?po))) cfg) w"
  have keep: "\<And>n f. sh_next (alloc_conns n f w) = sh_next w"
    "\<And>n f. pools (alloc_conns n f w) = pools w"
    "\<And>n f. shareds (alloc_conns n f w) = shareds w"
    by (simp_all add: alloc_conns_def)
  from assms(2) None obtain sp w2 where n: "newSharedBackendConn a cfg p w = Inr (sp, w2)"
    and w'0: "w' = w2\<lparr>pools := (pools w2)
                    (p := (pools w2 p)\<lparr>pool := (pool (pools w2 p))(a \<mapsto> sp)\<rparr>)\<rparr>"
    by (auto simp: pool_Retain_def split: sum.splits)
  from n have sp: "sp = sh_next w"
    and f: "pools w2 = pools w" "sh_next w2 = Suc (sh_next w)"
      "\<forall>x. x \<noteq> sh_next w \<longrightarrow> shareds w2 x = shareds w x"
      "refcnt (shareds w2 (sh_next w)) = 1" "owner (shareds w2 (sh_next w)) = p"
      "saddr (shareds w2 (sh_next w)) = a"
    by (auto simp: newSharedBackendConn_def Let_def new_grid_eq keep split: if_splits)
  show ?thesis
    unfolding pool_inv_def
  proof (intro allI impI)
    fix q b s'
    assume m: "pool (pools w' q) b = Some s'"
    show "1 \<le> refcnt (shareds w' s') \<and> owner (shareds w' s') = q \<and>
          saddr (shareds w' s') = b \<and> s' < sh_next w'"
    proof (cases "q = p \<and> b = a")
      case True
      with m have "s' = sh_next w" unfolding w'0 sp by simp
      with True f show ?thesis unfolding w'0 by simp
    next
      case False
      with m have "pool (pools w q) b = Some s'"
        unfolding w'0 f(1) by (auto split: if_splits)
      with assms(1) have i: "1 \<le> refcnt (shareds w s')" "owner (shareds w s') = q"
        "saddr (shareds w s') = b" "s' < sh_next w"
        by (auto simp: pool_inv_def)
      then have "shareds w2 s' = shareds w s'" using f(3) by simp
      with i f(2) show ?thesis unfolding w'0 by simp
    qed
  qed
qed



subsection \<open>KeepAlive and the reader\<close>

lemma setResponse_requests:
  "requests (setResponse r resp err w) =
     (requests w)(r := (requests w r)\<lparr>Resp := resp, Err := err\<rparr>)"
  by (simp add: setResponse_def Let_def wg_Done_def wg_Add_def split: option.split)

lemma setResponse_bconns: "bconns (setResponse r resp err w) = bconns w"
  by (simp add: setResponse_def Let_def wg_Done_def wg_Add_def split: option.split)

lemma setResponse_other:
  "req_next (setResponse r resp err w) = req_next w"
  "bc_next (setResponse r resp err w) = bc_next w"
  "goroutines (setResponse r resp err w) = goroutines w"
  "shareds (setResponse r resp err w) = shareds w"
  "pools (setResponse r resp err w) = pools w"
  by (simp_all add: setResponse_def Let_def wg_Done_def wg_Add_def split: option.split)

lemma setResponse_wgroups:
  "wgroups (setResponse r resp err w) g =
     wgroups w g - (if Group (requests w r) = Some g then 1 else 0)
                 - (if Batch (requests w r) = Some g then 1 else 0)"
  by (simp add: setResponse_def Let_def wg_Done_def wg_Add_def split: option.split)

lemma CompareAndSwap_state:
  "state (bconns (CompareAndSwap bc old new w) bc) =
     (if state (bconns w bc) = old then new else state (bconns w bc))"
  by (simp add: CompareAndSwap_def)

lemma CompareAndSwap_other:
  "requests (CompareAndSwap bc old new w) = requests w"
  "wgroups (CompareAndSwap bc old new w) = wgroups w"
  "req_next (CompareAndSwap bc old new w) = req_next w"
  "input (bconns (CompareAndSwap bc old new w) b) = input (bconns w b)"
  "input_closed (bconns (CompareAndSwap bc old new w) b) = input_closed (bconns w b)"
  "closed (bconns (CompareAndSwap bc old new w) b) = closed (bconns w b)"
  "fails (bconns (CompareAndSwap bc old new w) b) = fails (bconns w b)"
  "delay (bconns (CompareAndSwap bc old new w) b) = delay (bconns w b)"
  by (simp_all add: CompareAndSwap_def)

text \<open>
  C8. When the reader decodes, for the in-flight request \<open>r\<close>, an error frame whose
  value starts with \<open>MASTERDOWN\<close>, it moves the state from Connected to DataStale and
  leaves any other state as it is, completes \<open>r\<close> with the frame as \<open>Resp\<close> and a nil
  \<open>Err\<close> (decrementing its group and batch once each), touches no other request, and
  goes on with the rest of the in-flight queue.
\<close>

theorem loopReader_MASTERDOWN:
  assumes "IsError rp" "prefix errMasterDown (Value rp)"
  shows "\<exists>w'. loopReader bc ((r, Some rp, None) # tasks) w = loopReader bc tasks w' \<and>
           state (bconns w' bc) =
             (if state (bconns w bc) = stateConnected then stateDataStale
              else state (bconns w bc)) \<and>
           Resp (requests w' r) = Some rp \<and> Err (requests w' r) = None \<and>
           (\<forall>g. wgroups w' g =
                 wgroups w g - (if Group (requests w r) = Some g then 1 else 0)
                             - (if Batch (requests w r) = Some g then 1 else 0)) \<and>
           (\<forall>r'. r' \<noteq> r \<longrightarrow> requests w' r' = requests w r')"
proof -
  let ?w' = "setResponse r (Some rp) None (CompareAndSwap bc stateConnected stateDataStale w)"
  have "loopReader bc ((r, Some rp, None) # tasks) w = loopReader bc tasks ?w'"
    using assms by simp
  moreover have "state (bconns ?w' bc) =
             (if state (bconns w bc) = stateConnected then stateDataStale
              else state (bconns w bc))"
    by (simp add: setResponse_bconns CompareAndSwap_state)
  moreover have "Resp (requests ?w' r) = Some rp" "Err (requests ?w' r) = None"
    by (simp_all add: setResponse_requests)
  moreover have "\<forall>g. wgroups ?w' g =
                 wgroups w g - (if Group (requests w r) = Some g then 1 else 0)
                             - (if Batch (requests w r) = Some g then 1 else 0)"
    by (simp add: setResponse_wgroups CompareAndSwap_other)
  moreover have "\<forall>r'. r' \<noteq> r \<longrightarrow> requests ?w' r' = requests w r'"
    by (simp add: setResponse_requests CompareAndSwap_other)
  ultimately show ?thesis by blast
qed

theorem loopReader_MASTERDOWN_witness:
  "IsError ex_masterdown \<and> prefix errMasterDown (Value ex_masterdown) \<and>
   (\<exists>w'. loopReader 0 [(0, Some ex_masterdown, None)] ex_inflight = (None, w') \<and>
      state (bconns w' 0) = stateDataStale \<and>
      Resp (requests w' 0) = Some ex_masterdown \<and> Err (requests w' 0) = None \<and>
      wgroups w' 0 = 0)"
proof -
  have h: "IsError ex_masterdown" "prefix errMasterDown (Value ex_masterdown)"
    by code_simp+
  have e: "state (bconns ex_inflight 0) = stateConnected" "wgroups ex_inflight 0 = 1"
    "Group (requests ex_inflight 0) = None" "Batch (requests ex_inflight 0) = Some 0"
    by code_simp+
  from loopReader_MASTERDOWN [OF h, of 0 0 "[]" ex_inflight]
  obtain w' where w': "loopReader 0 [(0, Some ex_masterdown, None)] ex_inflight = loopReader 0 [] w'"
    "state (bconns w' 0) =
             (if state (bconns ex_inflight 0) = stateConnected then stateDataStale
              else state (bconns ex_inflight 0))"
    "Resp (requests w' 0) = Some ex_masterdown" "Err (requests w' 0) = None"
    "\<forall>g. wgroups w' g =
                 wgroups ex_inflight g - (if Group (requests ex_inflight 0) = Some g then 1 else 0)
                             - (if Batch (requests ex_inflight 0) = Some g then 1 else 0)"
    by blast
  have "wgroups w' 0 = 0" using w'(5) e by simp
  moreover have "state (bconns w' 0) = stateDataStale" using w'(2) e by simp
  moreover have "loopReader 0 [(0, Some ex_masterdown, None)] ex_inflight = (None, w')"
    using w'(1) by simp
  ultimately show ?thesis using h w'(3,4) by blast
qed

text \<open>
  C3, as stated, fails on a connection whose input queue has been closed and is empty:
  the send of \<open>PushBack\<close> panics, so \<open>KeepAlive\<close> neither enqueues nor returns.
\<close>

theorem KeepAlive_closed_counterexample:
  "input (bconns (Close 0 ex_fresh) 0) = [] \<and>
   KeepAlive 0 (Close 0 ex_fresh) = Inl SendOnClosedChannel"
  by (simp add: ex_fresh_def NewBackendConn_def World0_def Close_def close_bc_def
      KeepAlive_def CompareAndSwap_def PushBack_def Let_def stateDataStale_def
      empty_Request_def)

text \<open>
  C3, amended. \<open>KeepAlive\<close> first moves the state from DataStale to Connected (any
  other state stays). Then, with a non-empty input queue, it returns false and enqueues
  nothing; with an empty queue that has not been closed, it enqueues a new request whose
  \<open>Multi\<close> is the single bulk string \<open>PING\<close> and whose \<open>Group\<close> and \<open>Batch\<close> are nil,
  and returns true; with an empty queue that has been closed, the send panics.
\<close>

theorem KeepAlive_behaviour:
  "(input (bconns w bc) \<noteq> [] \<longrightarrow>
      KeepAlive bc w = Inr (False, CompareAndSwap bc stateDataStale stateConnected w)) \<and>
   (input (bconns w bc) = [] \<and> \<not> input_closed (bconns w bc) \<longrightarrow>
      (\<exists>w'. KeepAlive bc w = Inr (True, w') \<and>
         input (bconns w' bc) = [req_next w] \<and>
         requests w' (req_next w) =
           \<lparr>Multi = [NewBulkBytes ''PING''], Resp = None, Err = None, Group = None,
            Batch = None, ReadOnly = False, Broken = False\<rparr> \<and>
         wgroups w' = wgroups w \<and>
         state (bconns w' bc) =
           (if state (bconns w bc) = stateDataStale then stateConnected
            else state (bconns w bc)))) \<and>
   (input (bconns w bc) = [] \<and> input_closed (bconns w bc) \<longrightarrow>
      KeepAlive bc w = Inl SendOnClosedChannel) \<and>
   state (bconns (CompareAndSwap bc stateDataStale stateConnected w) bc) =
     (if state (bconns w bc) = stateDataStale then stateConnected else state (bconns w bc)) \<and>
   input (bconns (CompareAndSwap bc stateDataStale stateConnected w) bc) = input (bconns w bc) \<and>
   requests (CompareAndSwap bc stateDataStale stateConnected w) = requests w"
  by (auto simp: KeepAlive_def Let_def PushBack_def CompareAndSwap_def empty_Request_def
      wg_Add_def)

theorem KeepAlive_behaviour_witness:
  "input (bconns ex_queued 0) \<noteq> [] \<and>
   KeepAlive 0 ex_queued = Inr (False, ex_queued) \<and>
   input (bconns ex_stale 0) = [] \<and> \<not> input_closed (bconns ex_stale 0) \<and>
   (\<exists>w'. KeepAlive 0 ex_stale = Inr (True, w') \<and> input (bconns w' 0) = [0] \<and>
      Multi (requests w' 0) = [NewBulkBytes ''PING''] \<and>
      Group (requests w' 0) = None \<and> Batch (requests w' 0) = None \<and>
      state (bconns w' 0) = stateConnected) \<and>
   input (bconns (Close 0 ex_fresh) 0) = [] \<and> input_closed (bconns (Close 0 ex_fresh) 0) \<and>
   KeepAlive 0 (Close 0 ex_fresh) = Inl SendOnClosedChannel"
proof -
  have h1: "input (bconns ex_queued 0) \<noteq> []" by code_simp
  have h2: "input (bconns ex_stale 0) = [] \<and> \<not> input_closed (bconns ex_stale 0)"
    by code_simp
  have h3: "input (bconns (Close 0 ex_fresh) 0) = [] \<and> input_closed (bconns (Close 0 ex_fresh) 0)"
    by code_simp
  have "state (bconns ex_queued 0) \<noteq> stateDataStale" by code_simp
  then have e1: "CompareAndSwap 0 stateDataStale stateConnected ex_queued = ex_queued"
    by (simp add: CompareAndSwap_def)
  have e: "req_next ex_stale = 0" "state (bconns ex_stale 0) = stateDataStale"
    by code_simp+
  have a: "KeepAlive 0 ex_queued = Inr (False, ex_queued)"
    using KeepAlive_behaviour [of ex_queued 0] h1 e1 by simp
  from KeepAlive_behaviour [of ex_stale 0] h2
  obtain w' where w': "KeepAlive 0 ex_stale = Inr (True, w')"
    "input (bconns w' 0) = [req_next ex_stale]"
    "requests w' (req_next ex_stale) =
           \<lparr>Multi = [NewBulkBytes ''PING''], Resp = None, Err = None, Group = None,
            Batch = None, ReadOnly = False, Broken = False\<rparr>"
    "state (bconns w' 0) =
           (if state (bconns ex_stale 0) = stateDataStale then stateConnected
            else state (bconns ex_stale 0))"
    by blast
  have b: "\<exists>w'. KeepAlive 0 ex_stale = Inr (True, w') \<and> input (bconns w' 0) = [0] \<and>
      Multi (requests w' 0) = [NewBulkBytes ''PING''] \<and>
      Group (requests w' 0) = None \<and> Batch (requests w' 0) = None \<and>
      state (bconns w' 0) = stateConnected"
    using w' e by (intro exI [of _ w']) simp
  have c: "KeepAlive 0 (Close 0 ex_fresh) = Inl SendOnClosedChannel"
    using KeepAlive_behaviour [of "Close 0 ex_fresh" 0] h3 by blast
  show ?thesis using h1 a h2 b h3 c by blast
qed

subsection \<open>The supervisor\<close>



























text \<open>
  C1 fails on the code. A request is submitted with \<open>PushBack\<close> to a connection and
  the connection is then closed before its supervisor next tests \<open>closed\<close> (here:
  before the goroutine started by \<open>NewBackendConn\<close> gets to run). \<open>run\<close> returns at
  that test and nothing receives from the input queue afterwards: the request stays
  there with \<open>Resp\<close> and \<open>Err\<close> both nil and its batch never decremented.
\<close>

theorem run_exits_with_pending_request:
  "PushBack 0 0 ex_request = Inr ex_queued \<and>
   run 0 [] (Close 0 ex_queued) = Inr (Returned (), [], Close 0 ex_queued) \<and>
   run 0 (ex_refused # rds) (Close 0 ex_queued) = Inr (Returned (), [], Close 0 ex_queued) \<and>
   input (bconns (Close 0 ex_queued) 0) = [0] \<and>
   Resp (requests (Close 0 ex_queued) 0) = None \<and>
   Err (requests (Close 0 ex_queued) 0) = None \<and>
   Batch (requests (Close 0 ex_queued) 0) = Some 0 \<and>
   wgroups (Close 0 ex_queued) 0 = 1"
proof -
  have "input (bconns (wg_Add 0 1 ex_request) 0) = []"
    "\<not> input_closed (bconns (wg_Add 0 1 ex_request) 0)"
    "Batch (requests ex_request 0) = Some 0"
    by code_simp+
  then have a: "PushBack 0 0 ex_request = Inr ex_queued"
    by (simp add: PushBack_def ex_queued_def set_input_def Let_def)
  have c: "closed (bconns (Close 0 ex_queued) 0)"
    by (simp add: Close_def close_bc_def)
  have b: "run 0 [] (Close 0 ex_queued) = Inr (Returned (), [], Close 0 ex_queued)"
    "run 0 (ex_refused # rds) (Close 0 ex_queued) = Inr (Returned (), [], Close 0 ex_queued)"
    using c by (simp_all add: ex_refused_def)
  have d: "input (bconns (Close 0 ex_queued) 0) = [0]"
    "Resp (requests (Close 0 ex_queued) 0) = None"
    "Err (requests (Close 0 ex_queued) 0) = None"
    "Batch (requests (Close 0 ex_queued) 0) = Some 0"
    "wgroups (Close 0 ex_queued) 0 = 1"
    by code_simp+
  show ?thesis using a b d by blast
qed

end
